theory Spec2Isabelle
  imports Main "HOL-Library.Sublist"
begin

section \<open>Data model\<close>

text \<open>
  Python \<open>bytes\<close> are sequences of 8-bit values, and so are HOL strings; ids, keys and
  content-encoding tags are Python \<open>str\<close>.
\<close>

type_synonym bytes = string

text \<open>A naive \<open>datetime\<close>, field by field, a \<open>date\<close> and a \<open>time\<close>.\<close>

record datetime =
  year :: nat
  month :: nat
  day :: nat
  hour :: nat
  minute :: nat
  second :: nat
  microsecond :: nat

type_synonym date = "nat \<times> nat \<times> nat"
type_synonym time = "nat \<times> nat \<times> nat \<times> nat"

definition date_of :: "datetime \<Rightarrow> date" where
  \<comment> \<open>\<open>dt.date()\<close>\<close>
  "date_of dt = (year dt, month dt, day dt)"

definition datetime_min_time :: time where
  \<comment> \<open>\<open>datetime.min.time()\<close>, which is 00:00:00.000000\<close>
  "datetime_min_time = (0, 0, 0, 0)"

fun combine :: "date \<Rightarrow> time \<Rightarrow> datetime" where
  \<comment> \<open>\<open>datetime.combine(date, time)\<close>\<close>
  "combine (y, m, d) (h, mi, s, us) =
     \<lparr>year = y, month = m, day = d, hour = h, minute = mi, second = s, microsecond = us\<rparr>"

text \<open>
  Every exception the backend can meet is a value. \<open>OperationFailure\<close> carries \<open>str(e)\<close>,
  which the constructor inspects; \<open>ClientError\<close> and \<open>PyMongoError\<close> stand for the other
  failures of the two clients (network, authentication, quota); \<open>CodecError\<close> is a codec
  refusing bytes it cannot decode.
\<close>

datatype error =
    KeyError string
  | DuplicateKeyError
  | OperationFailure string
  | NoSuchKey
  | ClientError string
  | PyMongoError string
  | CodecError

text \<open>\<open>Codec[bytes, bytes]\<close> of \<open>sentry.utils.codecs\<close>: an encoder and a decoder that may raise.\<close>

record codec =
  encode :: "bytes \<Rightarrow> bytes"
  decode :: "bytes \<Rightarrow> error + bytes"

text \<open>
  A document of the collection, stored under its \<open>_id\<close>. The batched read fetches
  \<open>content_encoding\<close> with \<open>doc.get\<close>, so the field may be missing.
\<close>

record document =
  data :: bytes
  content_encoding :: "string option"
  created_day :: datetime

text \<open>The part of a \<open>get_object\<close> response the backend can see.\<close>

record s3_object =
  Body :: bytes
  ContentEncoding :: "string option"
  LastModified :: datetime

text \<open>The calls made to the two clients.\<close>

datatype call =
    CreateIndex int
  | DropIndex
  | InsertOne string
  | UpdateOne string
  | FindOne string
  | Find "string list"
  | DeleteOne string
  | DeleteMany "string list"
  | GetObject string string
  | DeleteObject string string

type_synonym collection = "string \<rightharpoonup> document"
type_synonym objects = "string \<times> string \<rightharpoonup> s3_object"

text \<open>
  The world outside the backend: the MongoDB collection (the primary tier) with the options of
  its index \<open>created_day_ttl\<close>, the S3 objects by bucket and key (the archival tier), the clock,
  the failures the clients are going to raise, and what an observer has seen so far: every call
  that reached a client, with both tiers as they were when the call returned.
\<close>

record world =
  collection :: collection
  ttl_index :: "int option"
  objects :: objects
  utcnow :: datetime
  fault :: "call \<Rightarrow> error option"
  history :: "(call \<times> collection \<times> objects) list"

type_synonym 'a result = "(error + 'a) \<times> world"

text \<open>
  The attributes of a \<open>MongoNodeStorage\<close> that its methods read. \<open>ZstdCodec\<close> is the
  instance of the Sentry class registered in \<open>compression_strategies\<close>.
\<close>

record self =
  read_from_s3 :: bool
  default_ttl_days :: "int option"
  compression :: "string option"
  bucket_name :: string
  bucket_path :: "string option"
  ZstdCodec :: codec

section \<open>The clients\<close>

definition observe :: "call \<Rightarrow> world \<Rightarrow> world" where
  "observe c w = w\<lparr>history := history w @ [(c, collection w, objects w)]\<rparr>"

text \<open>
  \<open>pymongo\<close>. A call the environment makes fail raises and changes nothing. \<open>insert_one\<close>
  raises \<open>DuplicateKeyError\<close> when the id is taken; \<open>update_one\<close> with \<open>$set\<close> of a whole
  document replaces the matching document and does nothing when none matches.
\<close>

definition insert_one :: "string \<Rightarrow> document \<Rightarrow> world \<Rightarrow> unit result" where
  "insert_one i doc w =
     (case fault w (InsertOne i) of
        Some e \<Rightarrow> (Inl e, observe (InsertOne i) w)
      | None \<Rightarrow>
          (case collection w i of
             Some old \<Rightarrow> (Inl DuplicateKeyError, observe (InsertOne i) w)
           | None \<Rightarrow> (Inr (), observe (InsertOne i) (w\<lparr>collection := (collection w)(i \<mapsto> doc)\<rparr>))))"

definition update_one :: "string \<Rightarrow> document \<Rightarrow> world \<Rightarrow> unit result" where
  "update_one i doc w =
     (case fault w (UpdateOne i) of
        Some e \<Rightarrow> (Inl e, observe (UpdateOne i) w)
      | None \<Rightarrow>
          (case collection w i of
             Some old \<Rightarrow> (Inr (), observe (UpdateOne i) (w\<lparr>collection := (collection w)(i \<mapsto> doc)\<rparr>))
           | None \<Rightarrow> (Inr (), observe (UpdateOne i) w)))"

definition find_one :: "string \<Rightarrow> world \<Rightarrow> document option result" where
  "find_one i w =
     (case fault w (FindOne i) of
        Some e \<Rightarrow> (Inl e, observe (FindOne i) w)
      | None \<Rightarrow> (Inr (collection w i), observe (FindOne i) w))"

definition find_in :: "string list \<Rightarrow> world \<Rightarrow> (string \<times> document) list result" where
  \<comment> \<open>\<open>find({'_id': {'$in': ids}})\<close>: each matching document once, in no meaningful order\<close>
  "find_in ids w =
     (case fault w (Find ids) of
        Some e \<Rightarrow> (Inl e, observe (Find ids) w)
      | None \<Rightarrow>
          (Inr (List.map_filter (\<lambda>i. map_option (Pair i) (collection w i)) (remdups ids)),
           observe (Find ids) w))"

definition delete_one :: "string \<Rightarrow> world \<Rightarrow> unit result" where
  "delete_one i w =
     (case fault w (DeleteOne i) of
        Some e \<Rightarrow> (Inl e, observe (DeleteOne i) w)
      | None \<Rightarrow> (Inr (), observe (DeleteOne i) (w\<lparr>collection := (collection w)(i := None)\<rparr>)))"

definition delete_many :: "string list \<Rightarrow> world \<Rightarrow> unit result" where
  "delete_many ids w =
     (case fault w (DeleteMany ids) of
        Some e \<Rightarrow> (Inl e, observe (DeleteMany ids) w)
      | None \<Rightarrow>
          (Inr (), observe (DeleteMany ids)
             (w\<lparr>collection := (\<lambda>i. if i \<in> set ids then None else collection w i)\<rparr>)))"

definition create_index :: "int \<Rightarrow> world \<Rightarrow> unit result" where
  \<comment> \<open>\<open>create_index([("created_day", ASCENDING)], expireAfterSeconds=secs, name="created_day_ttl")\<close>\<close>
  "create_index secs w =
     (case fault w (CreateIndex secs) of
        Some e \<Rightarrow> (Inl e, observe (CreateIndex secs) w)
      | None \<Rightarrow>
          (case ttl_index w of
             None \<Rightarrow> (Inr (), observe (CreateIndex secs) (w\<lparr>ttl_index := Some secs\<rparr>))
           | Some old \<Rightarrow>
               if old = secs then (Inr (), observe (CreateIndex secs) w)
               else (Inl (OperationFailure
                       ''Index with name: created_day_ttl already exists with different options''),
                     observe (CreateIndex secs) w)))"

definition drop_index :: "world \<Rightarrow> unit result" where
  \<comment> \<open>\<open>drop_index("created_day_ttl")\<close>\<close>
  "drop_index w =
     (case fault w DropIndex of
        Some e \<Rightarrow> (Inl e, observe DropIndex w)
      | None \<Rightarrow>
          (case ttl_index w of
             None \<Rightarrow> (Inl (OperationFailure ''index not found with name [created_day_ttl]''),
                       observe DropIndex w)
           | Some old \<Rightarrow> (Inr (), observe DropIndex (w\<lparr>ttl_index := None\<rparr>))))"

text \<open>
  \<open>boto3\<close>. Reading a key that is not there raises \<open>NoSuchKey\<close>; so does deleting one, the
  not-found signal the backend's handler around \<open>delete_object\<close> is written for.
\<close>

definition get_object :: "string \<Rightarrow> string \<Rightarrow> world \<Rightarrow> s3_object result" where
  "get_object b k w =
     (case fault w (GetObject b k) of
        Some e \<Rightarrow> (Inl e, observe (GetObject b k) w)
      | None \<Rightarrow>
          (case objects w (b, k) of
             None \<Rightarrow> (Inl NoSuchKey, observe (GetObject b k) w)
           | Some obj \<Rightarrow> (Inr obj, observe (GetObject b k) w)))"

definition delete_object :: "string \<Rightarrow> string \<Rightarrow> world \<Rightarrow> unit result" where
  "delete_object b k w =
     (case fault w (DeleteObject b k) of
        Some e \<Rightarrow> (Inl e, observe (DeleteObject b k) w)
      | None \<Rightarrow>
          (case objects w (b, k) of
             None \<Rightarrow> (Inl NoSuchKey, observe (DeleteObject b k) w)
           | Some obj \<Rightarrow>
               (Inr (), observe (DeleteObject b k) (w\<lparr>objects := (objects w)((b, k) := None)\<rparr>))))"

section \<open>MongoNodeStorage\<close>

definition compression_strategies :: "self \<Rightarrow> string \<rightharpoonup> codec" where
  "compression_strategies s = [''zstd'' \<mapsto> ZstdCodec s]"

definition strategies_get :: "self \<Rightarrow> string option \<Rightarrow> codec option" where
  \<comment> \<open>\<open>self.compression_strategies.get(tag)\<close>, where the tag may be Python's \<open>None\<close>\<close>
  "strategies_get s tag = (case tag of None \<Rightarrow> None | Some t \<Rightarrow> compression_strategies s t)"

definition decode_with :: "self \<Rightarrow> string option \<Rightarrow> bytes \<Rightarrow> error + bytes" where
  \<comment> \<open>\<open>codec = ....get(tag); codec.decode(data) if codec else data\<close>\<close>
  "decode_with s tag d = (case strategies_get s tag of None \<Rightarrow> Inr d | Some c \<Rightarrow> decode c d)"

definition truthy_str :: "string option \<Rightarrow> bool" where
  "truthy_str x = (case x of None \<Rightarrow> False | Some t \<Rightarrow> t \<noteq> [])"

definition truthy_int :: "int option \<Rightarrow> bool" where
  "truthy_int x = (case x of None \<Rightarrow> False | Some n \<Rightarrow> n \<noteq> 0)"

subsection \<open>Construction\<close>

definition init :: "self \<Rightarrow> world \<Rightarrow> self result" where
  "init s w =
     (if truthy_int (default_ttl_days s) then
        (case create_index (the (default_ttl_days s) * 24 * 3600) w of
           (Inr u, w1) \<Rightarrow> (Inr s, w1)
         | (Inl (OperationFailure msg), w1) \<Rightarrow>
             if sublist ''already exists with different options'' msg then
               (case drop_index w1 of
                  (Inl e, w2) \<Rightarrow> (Inl e, w2)
                | (Inr u, w2) \<Rightarrow>
                    (case create_index (the (default_ttl_days s) * 24 * 3600) w2 of
                       (Inl e, w3) \<Rightarrow> (Inl e, w3)
                     | (Inr u', w3) \<Rightarrow> (Inr s, w3)))
             else (Inr s, w1)
         | (Inl e, w1) \<Rightarrow> (Inl e, w1))
      else (Inr s, w))"

subsection \<open>Delete\<close>

definition delete :: "self \<Rightarrow> string \<Rightarrow> world \<Rightarrow> unit result" where
  "delete s i w = delete_one i w"

definition delete_multi :: "self \<Rightarrow> string list \<Rightarrow> world \<Rightarrow> unit result" where
  "delete_multi s id_list w = delete_many id_list w"

subsection \<open>Set\<close>

definition choose_encoding :: "self \<Rightarrow> bytes \<Rightarrow> error + bytes \<times> string" where
  \<comment> \<open>the first half of \<open>_set_bytes\<close>: the bytes to store and their \<open>content_encoding\<close>\<close>
  "choose_encoding s d =
     (if truthy_str (compression s) then
        (case compression_strategies s (the (compression s)) of
           None \<Rightarrow> Inl (KeyError (the (compression s)))
         | Some c \<Rightarrow>
             let compressed_data = encode c d in
             if length compressed_data \<le> length d
             then Inr (compressed_data, the (compression s))
             else Inr (d, ''''))
      else Inr (d, ''''))"

definition set_bytes :: "self \<Rightarrow> string \<Rightarrow> bytes \<Rightarrow> int option \<Rightarrow> world \<Rightarrow> unit result" where
  "set_bytes s i d ttl w =
     (case choose_encoding s d of
        Inl e \<Rightarrow> (Inl e, w)
      | Inr (d', enc) \<Rightarrow>
          let created_dt = combine (date_of (utcnow w)) datetime_min_time;
              doc = \<lparr>data = d', content_encoding = Some enc, created_day = created_dt\<rparr>
          in (case insert_one i doc w of
                (Inl DuplicateKeyError, w1) \<Rightarrow> update_one i doc w1
              | r \<Rightarrow> r))"

subsection \<open>Get\<close>

definition get_key_for_id :: "self \<Rightarrow> string \<Rightarrow> string" where
  "get_key_for_id s i = (case bucket_path s of None \<Rightarrow> i | Some p \<Rightarrow> p @ ''/'' @ i)"

definition except_NoSuchKey :: "'a \<Rightarrow> 'a result \<Rightarrow> 'a result" where
  \<comment> \<open>\<open>except self.s3_client.exceptions.NoSuchKey\<close>: that one exception ends the block
      with the handler's value, every other goes on\<close>
  "except_NoSuchKey v r = (case r of (Inl NoSuchKey, w) \<Rightarrow> (Inr v, w) | other \<Rightarrow> other)"

definition read_from_bucket :: "self \<Rightarrow> string \<Rightarrow> world \<Rightarrow> bytes option result" where
  "read_from_bucket s i w =
     except_NoSuchKey None
       (case get_object (bucket_name s) (get_key_for_id s i) w of
          (Inl e, w1) \<Rightarrow> (Inl e, w1)
        | (Inr obj, w1) \<Rightarrow>
            (case decode_with s (ContentEncoding obj) (Body obj) of
               Inl e \<Rightarrow> (Inl e, w1)
             | Inr v \<Rightarrow>
                 except_NoSuchKey (Some v)
                   (case delete_object (bucket_name s) (get_key_for_id s i) w1 of
                      (Inl e, w2) \<Rightarrow> (Inl e, w2)
                    | (Inr u, w2) \<Rightarrow>
                        (case set_bytes s i v None w2 of
                           (Inl e, w3) \<Rightarrow> (Inl e, w3)
                         | (Inr u', w3) \<Rightarrow> (Inr (Some v), w3)))))"

definition get_bytes :: "self \<Rightarrow> string \<Rightarrow> world \<Rightarrow> bytes option result" where
  "get_bytes s i w =
     (case find_one i w of
        (Inl e, w1) \<Rightarrow> (Inl e, w1)
      | (Inr (Some doc), w1) \<Rightarrow>
          (case content_encoding doc of
             None \<Rightarrow> (Inl (KeyError ''content_encoding''), w1)
           | Some tag \<Rightarrow>
               (case decode_with s (Some tag) (data doc) of
                  Inl e \<Rightarrow> (Inl e, w1)
                | Inr v \<Rightarrow> (Inr (Some v), w1)))
      | (Inr None, w1) \<Rightarrow>
          if read_from_s3 s then read_from_bucket s i w1 else (Inr None, w1))"

text \<open>
  The three loops of \<open>_get_bytes_multi\<close>. The result is a Python dict from id to
  \<open>bytes | None\<close>: a map to \<open>bytes option\<close>, where \<open>id_ not in result\<close> is \<open>result id_ = None\<close>.
\<close>

type_synonym multi_result = "string \<rightharpoonup> bytes option"

fun decode_docs :: "self \<Rightarrow> (string \<times> document) list \<Rightarrow> multi_result \<Rightarrow> error + multi_result" where
  "decode_docs s [] result = Inr result"
| "decode_docs s ((i, doc) # docs) result =
     (case decode_with s (content_encoding doc) (data doc) of
        Inl e \<Rightarrow> Inl e
      | Inr v \<Rightarrow> decode_docs s docs (result(i \<mapsto> Some v)))"

fun read_missing :: "self \<Rightarrow> string list \<Rightarrow> multi_result \<Rightarrow> world \<Rightarrow> multi_result result" where
  "read_missing s [] result w = (Inr result, w)"
| "read_missing s (i # missing_ids) result w =
     (case read_from_bucket s i w of
        (Inl e, w1) \<Rightarrow> (Inl e, w1)
      | (Inr v, w1) \<Rightarrow> read_missing s missing_ids (result(i \<mapsto> v)) w1)"

fun fill_none :: "string list \<Rightarrow> multi_result \<Rightarrow> multi_result" where
  "fill_none [] result = result"
| "fill_none (i # ids) result =
     fill_none ids (if result i = None then result(i \<mapsto> None) else result)"

definition get_bytes_multi :: "self \<Rightarrow> string list \<Rightarrow> world \<Rightarrow> multi_result result" where
  "get_bytes_multi s ids w =
     (case find_in ids w of
        (Inl e, w1) \<Rightarrow> (Inl e, w1)
      | (Inr docs, w1) \<Rightarrow>
          (case decode_docs s docs Map.empty of
             Inl e \<Rightarrow> (Inl e, w1)
           | Inr result \<Rightarrow>
               (case (if read_from_s3 s
                      then read_missing s (filter (\<lambda>i. result i = None) ids) result w1
                      else (Inr result, w1)) of
                  (Inl e, w2) \<Rightarrow> (Inl e, w2)
                | (Inr result', w2) \<Rightarrow> (Inr (fill_none ids result'), w2))))"

subsection \<open>Cleanup\<close>

definition cleanup :: "self \<Rightarrow> datetime \<Rightarrow> world \<Rightarrow> unit result" where
  "cleanup s cutoff_timestamp w = (Inr (), w)"

section \<open>The state of an entry\<close>

text \<open>
  The four states an id can be in, read off the two tiers, and what an observer of the two
  services sees of one id over the calls recorded in a world.
\<close>

datatype entry_state = ArchivalOnly | PrimaryOnly | TransientBoth | Absent

definition state_of :: "self \<Rightarrow> string \<Rightarrow> collection \<Rightarrow> objects \<Rightarrow> entry_state" where
  "state_of s i col objs =
     (case (col i, objs (bucket_name s, get_key_for_id s i)) of
        (None, None) \<Rightarrow> Absent
      | (Some doc, None) \<Rightarrow> PrimaryOnly
      | (None, Some obj) \<Rightarrow> ArchivalOnly
      | (Some doc, Some obj) \<Rightarrow> TransientBoth)"

definition observed :: "self \<Rightarrow> string \<Rightarrow> world \<Rightarrow> (call \<times> entry_state) list" where
  "observed s i w = map (\<lambda>(c, col, objs). (c, state_of s i col objs)) (history w)"

section \<open>An environment without failures\<close>

text \<open>
  The batched read raises when a client fails, when stored bytes do not decode, or when the
  configured compression is not a registered name. An environment is healthy when none of
  this can happen: no call fails, every document and, where the archival tier is read, every
  object decodes under its tag, and a write finds its codec.
\<close>

definition healthy :: "self \<Rightarrow> world \<Rightarrow> bool" where
  "healthy s w \<longleftrightarrow>
     (\<forall>c. fault w c = None) \<and>
     (\<forall>i doc. collection w i = Some doc \<longrightarrow>
        (\<exists>v. decode_with s (content_encoding doc) (data doc) = Inr v)) \<and>
     (read_from_s3 s \<longrightarrow>
        (\<forall>k obj. objects w k = Some obj \<longrightarrow>
           (\<exists>v. decode_with s (ContentEncoding obj) (Body obj) = Inr v)) \<and>
        (\<forall>v. \<exists>p. choose_encoding s v = Inr p))"

section \<open>A codec and a world to run the model on\<close>

text \<open>
  \<open>ZstdCodec\<close> is not part of the repository, so the theorems hold for any codec. To evaluate
  the model a small codec takes its place: it marks its output with one byte and squeezes a
  leading run, so that its output is shorter than, as long as, or longer than its input.
\<close>

fun run_encode :: "bytes \<Rightarrow> bytes" where
  "run_encode (a # b # c # r) =
     (if a = b \<and> b = c then CHR ''T'' # a # r
      else if a = b then CHR ''D'' # a # c # r
      else CHR ''L'' # a # b # c # r)"
| "run_encode [a, b] = (if a = b then [CHR ''D'', a] else [CHR ''L'', a, b])"
| "run_encode xs = CHR ''L'' # xs"

fun run_decode :: "bytes \<Rightarrow> error + bytes" where
  "run_decode [] = Inl CodecError"
| "run_decode (t # r) =
     (if t = CHR ''L'' then Inr r
      else if t = CHR ''T'' then (case r of [] \<Rightarrow> Inl CodecError | a # r' \<Rightarrow> Inr (a # a # a # r'))
      else if t = CHR ''D'' then (case r of [] \<Rightarrow> Inl CodecError | a # r' \<Rightarrow> Inr (a # a # r'))
      else Inl CodecError)"

definition run_codec :: codec where
  "run_codec = \<lparr>encode = run_encode, decode = run_decode\<rparr>"

definition noon :: datetime where
  "noon = \<lparr>year = 2024, month = 5, day = 17, hour = 12, minute = 34, second = 56, microsecond = 789\<rparr>"

definition long_ago :: datetime where
  "long_ago = \<lparr>year = 2020, month = 1, day = 2, hour = 3, minute = 4, second = 5, microsecond = 6\<rparr>"

definition store0 :: self where
  "store0 = \<lparr>read_from_s3 = True, default_ttl_days = Some 30, compression = Some ''zstd'',
             bucket_name = ''nodestore'', bucket_path = Some ''cold'', ZstdCodec = run_codec\<rparr>"

text \<open>An empty collection, and one archived object, \<open>zzz\<close> under the id \<open>e2\<close>.\<close>

definition world0 :: world where
  "world0 = \<lparr>collection = Map.empty, ttl_index = None,
             objects = [(''nodestore'', ''cold/e2'') \<mapsto>
                          \<lparr>Body = ''Tz'', ContentEncoding = Some ''zstd'', LastModified = long_ago\<rparr>],
             utcnow = noon, fault = (\<lambda>c. None), history = []\<rparr>"

text \<open>The same world with an S3 client that is refused every delete of that object.\<close>

definition world_denied :: world where
  "world_denied =
     world0\<lparr>fault := (\<lambda>c. if c = DeleteObject ''nodestore'' ''cold/e2''
                           then Some (ClientError ''AccessDenied'') else None)\<rparr>"

text \<open>The same world with a MongoDB user who may not create an index (30 days, in seconds).\<close>

definition world_unauthorized :: world where
  "world_unauthorized =
     world0\<lparr>fault := (\<lambda>c. if c = CreateIndex 2592000
                           then Some (OperationFailure ''not authorized on sentry_nodestore'')
                           else None)\<rparr>"

text \<open>A world with one document, \<open>aaaa\<close> under \<open>e1\<close>, beside the archived \<open>e2\<close>.\<close>

definition world_mixed :: world where
  "world_mixed =
     world0\<lparr>collection := [''e1'' \<mapsto>
               \<lparr>data = ''Taa'', content_encoding = Some ''zstd'', created_day = long_ago\<rparr>]\<rparr>"

section \<open>Basic facts\<close>

lemma run_roundtrip: "run_decode (run_encode x) = Inr x"
  by (induction x rule: run_encode.induct) auto

lemma fault_observe [simp]: "fault (observe c w) = fault w"
  by (simp add: observe_def)

lemma collection_observe [simp]: "collection (observe c w) = collection w"
  by (simp add: observe_def)

lemma objects_observe [simp]: "objects (observe c w) = objects w"
  by (simp add: observe_def)

lemma utcnow_observe [simp]: "utcnow (observe c w) = utcnow w"
  by (simp add: observe_def)

text \<open>What a write does when the two calls it may make do not fail.\<close>

lemma set_bytes_ok:
  assumes "choose_encoding s v = Inr (d', enc)"
      and "fault w (InsertOne i) = None" and "fault w (UpdateOne i) = None"
  shows "fst (set_bytes s i v ttl w) = Inr ()"
    and "collection (snd (set_bytes s i v ttl w)) =
           (collection w)(i \<mapsto> \<lparr>data = d', content_encoding = Some enc,
                                 created_day = combine (date_of (utcnow w)) datetime_min_time\<rparr>)"
    and "objects (snd (set_bytes s i v ttl w)) = objects w"
    and "fault (snd (set_bytes s i v ttl w)) = fault w"
    and "utcnow (snd (set_bytes s i v ttl w)) = utcnow w"
  using assms
  by (cases "collection w i"; simp add: set_bytes_def insert_one_def update_one_def Let_def)+

lemma choose_encoding_configured:
  assumes "compression s = Some name" "name \<noteq> []" "compression_strategies s name = Some c"
  shows "choose_encoding s v =
           Inr (if length (encode c v) \<le> length v then (encode c v, name) else (v, []))"
  using assms by (simp add: choose_encoding_def truthy_str_def Let_def)

section \<open>Compression on write\<close>

text \<open>
  C5. A write with compression configured (a registered, non-empty name) stores a record whose
  \<open>content_encoding\<close> is non-empty exactly when the encoded form is no longer than the payload;
  then the encoded bytes are stored under the codec's name, otherwise the raw bytes are stored
  with the empty tag.
\<close>

theorem set_bytes_compression_guard:
  assumes "compression s = Some name" and "name \<noteq> []"
      and "compression_strategies s name = Some c"
      and "fault w (InsertOne i) = None" and "fault w (UpdateOne i) = None"
  shows "fst (set_bytes s i v ttl w) = Inr () \<and>
         (\<exists>doc. collection (snd (set_bytes s i v ttl w)) i = Some doc \<and>
            (content_encoding doc \<noteq> Some [] \<longleftrightarrow> length (encode c v) \<le> length v) \<and>
            (length (encode c v) \<le> length v \<longrightarrow>
               data doc = encode c v \<and> content_encoding doc = Some name) \<and>
            (\<not> length (encode c v) \<le> length v \<longrightarrow>
               data doc = v \<and> content_encoding doc = Some []))"
proof -
  let ?p = "if length (encode c v) \<le> length v then (encode c v, name) else (v, [])"
  have ch: "choose_encoding s v = Inr (fst ?p, snd ?p)"
    using assms(1-3) by (simp add: choose_encoding_configured)
  show ?thesis
    using set_bytes_ok(1,2) [OF ch assms(4,5), of ttl] assms(2) by simp
qed

theorem set_bytes_compression_guard_witness:
  "compression store0 = Some ''zstd'' \<and> ''zstd'' \<noteq> [] \<and>
   compression_strategies store0 ''zstd'' = Some run_codec \<and>
   fault world0 (InsertOne ''e1'') = None \<and> fault world0 (UpdateOne ''e1'') = None \<and>
   length (encode run_codec ''aaaa'') \<le> length ''aaaa'' \<and>
   fst (set_bytes store0 ''e1'' ''aaaa'' None world0) = Inr () \<and>
   map_option data (collection (snd (set_bytes store0 ''e1'' ''aaaa'' None world0)) ''e1'')
     = Some ''Taa'' \<and>
   map_option content_encoding (collection (snd (set_bytes store0 ''e1'' ''aaaa'' None world0)) ''e1'')
     = Some (Some ''zstd'')"
proof -
  have h: "compression store0 = Some ''zstd''" "''zstd'' \<noteq> []"
    "compression_strategies store0 ''zstd'' = Some run_codec"
    "fault world0 (InsertOne ''e1'') = None" "fault world0 (UpdateOne ''e1'') = None"
    by (simp_all add: store0_def world0_def compression_strategies_def)
  show ?thesis
    using h set_bytes_compression_guard [OF h, of "''aaaa''" None]
    by (auto simp: run_codec_def)
qed

section \<open>Cleanup\<close>

text \<open>
  C8. For every cutoff timestamp \<open>cleanup\<close> returns without an error and leaves the world as it
  was: neither tier changes, and no call reaches either client.
\<close>

theorem cleanup_noop:
  "cleanup s cutoff_timestamp w = (Inr (), w)"
  by (simp add: cleanup_def)

section \<open>Migration on read\<close>

lemma history_observe [simp]: "history (observe c w) = history w @ [(c, collection w, objects w)]"
  by (simp add: observe_def)

lemma read_from_bucket_ok:
  assumes "objects w (bucket_name s, get_key_for_id s i) = Some obj"
      and "decode_with s (ContentEncoding obj) (Body obj) = Inr v"
      and "choose_encoding s v = Inr (d', enc)"
      and "fault w (GetObject (bucket_name s) (get_key_for_id s i)) = None"
      and "fault w (DeleteObject (bucket_name s) (get_key_for_id s i)) = None"
      and "fault w (InsertOne i) = None" and "fault w (UpdateOne i) = None"
  shows "fst (read_from_bucket s i w) = Inr (Some v)"
    and "collection (snd (read_from_bucket s i w)) =
           (collection w)(i \<mapsto> \<lparr>data = d', content_encoding = Some enc,
                                 created_day = combine (date_of (utcnow w)) datetime_min_time\<rparr>)"
    and "objects (snd (read_from_bucket s i w)) =
           (objects w)((bucket_name s, get_key_for_id s i) := None)"
    and "fault (snd (read_from_bucket s i w)) = fault w"
    and "utcnow (snd (read_from_bucket s i w)) = utcnow w"
proof -
  let ?k = "get_key_for_id s i" and ?b = "bucket_name s"
  let ?w1 = "observe (GetObject ?b ?k) w"
  let ?w2 = "observe (DeleteObject ?b ?k) (?w1\<lparr>objects := (objects w)((?b, ?k) := None)\<rparr>)"
  have g: "get_object ?b ?k w = (Inr obj, ?w1)"
    using assms(1,4) by (simp add: get_object_def)
  have d: "delete_object ?b ?k ?w1 = (Inr (), ?w2)"
    using assms(1,5) by (simp add: delete_object_def)
  have f2: "fault ?w2 (InsertOne i) = None" "fault ?w2 (UpdateOne i) = None"
    using assms(6,7) by simp_all
  note sb = set_bytes_ok [OF assms(3) f2, of None]
  obtain r w3 where r: "set_bytes s i v None ?w2 = (r, w3)" by (cases "set_bytes s i v None ?w2")
  with sb(1) have r': "set_bytes s i v None ?w2 = (Inr (), w3)" by simp
  have rb: "read_from_bucket s i w = (Inr (Some v), w3)"
    by (simp add: read_from_bucket_def g d r' assms(2) except_NoSuchKey_def)
  show "fst (read_from_bucket s i w) = Inr (Some v)" by (simp add: rb)
  show "collection (snd (read_from_bucket s i w)) =
           (collection w)(i \<mapsto> \<lparr>data = d', content_encoding = Some enc,
                                 created_day = combine (date_of (utcnow w)) datetime_min_time\<rparr>)"
    using sb(2) r' by (simp add: rb)
  show "objects (snd (read_from_bucket s i w)) = (objects w)((?b, ?k) := None)"
    using sb(3) r' by (simp add: rb)
  show "fault (snd (read_from_bucket s i w)) = fault w"
    using sb(4) r' by (simp add: rb)
  show "utcnow (snd (read_from_bucket s i w)) = utcnow w"
    using sb(5) r' by (simp add: rb)
qed

lemma get_bytes_miss:
  assumes "collection w i = None" and "fault w (FindOne i) = None" and "read_from_s3 s"
  shows "get_bytes s i w = read_from_bucket s i (observe (FindOne i) w)"
  using assms by (simp add: get_bytes_def find_one_def)

text \<open>
  C10. After a successful migration-on-read of an id that only the archival tier holds, the new
  primary record carries the day of the read at midnight UTC, whatever timestamp the archived
  object has, and the value encoded under the compression configured now.
\<close>

theorem migration_stamps_today:
  assumes "read_from_s3 s" and "collection w i = None"
      and "objects w (bucket_name s, get_key_for_id s i) = Some obj"
      and "decode_with s (ContentEncoding obj) (Body obj) = Inr v"
      and "choose_encoding s v = Inr (d', enc)"
      and "fault w (FindOne i) = None"
      and "fault w (GetObject (bucket_name s) (get_key_for_id s i)) = None"
      and "fault w (DeleteObject (bucket_name s) (get_key_for_id s i)) = None"
      and "fault w (InsertOne i) = None" and "fault w (UpdateOne i) = None"
  shows "fst (get_bytes s i w) = Inr (Some v) \<and>
         collection (snd (get_bytes s i w)) i =
           Some \<lparr>data = d', content_encoding = Some enc,
                 created_day = \<lparr>year = year (utcnow w), month = month (utcnow w),
                                day = day (utcnow w), hour = 0, minute = 0, second = 0,
                                microsecond = 0\<rparr>\<rparr>"
proof -
  let ?w0 = "observe (FindOne i) w"
  have eq: "get_bytes s i w = read_from_bucket s i ?w0"
    using assms(1,2,6) by (simp add: get_bytes_miss)
  have "fst (read_from_bucket s i ?w0) = Inr (Some v)"
    by (rule read_from_bucket_ok(1) [OF _ assms(4,5)]) (simp_all add: assms)
  moreover have "collection (snd (read_from_bucket s i ?w0)) =
           (collection ?w0)(i \<mapsto> \<lparr>data = d', content_encoding = Some enc,
                                 created_day = combine (date_of (utcnow ?w0)) datetime_min_time\<rparr>)"
    by (rule read_from_bucket_ok(2) [OF _ assms(4,5)]) (simp_all add: assms)
  ultimately show ?thesis
    by (simp add: eq date_of_def datetime_min_time_def)
qed

theorem migration_stamps_today_witness:
  "read_from_s3 store0 \<and> collection world0 ''e2'' = None \<and>
   objects world0 (bucket_name store0, get_key_for_id store0 ''e2'') =
     Some \<lparr>Body = ''Tz'', ContentEncoding = Some ''zstd'', LastModified = long_ago\<rparr> \<and>
   decode_with store0 (Some ''zstd'') ''Tz'' = Inr ''zzz'' \<and>
   choose_encoding store0 ''zzz'' = Inr (''Tz'', ''zstd'') \<and>
   fst (get_bytes store0 ''e2'' world0) = Inr (Some ''zzz'') \<and>
   collection (snd (get_bytes store0 ''e2'' world0)) ''e2'' =
     Some \<lparr>data = ''Tz'', content_encoding = Some ''zstd'',
           created_day = \<lparr>year = 2024, month = 5, day = 17, hour = 0, minute = 0, second = 0,
                          microsecond = 0\<rparr>\<rparr>"
proof -
  let ?obj = "\<lparr>Body = ''Tz'', ContentEncoding = Some ''zstd'', LastModified = long_ago\<rparr>"
  have h1: "read_from_s3 store0" "collection world0 ''e2'' = None"
    by (simp_all add: store0_def world0_def)
  have h2: "objects world0 (bucket_name store0, get_key_for_id store0 ''e2'') = Some ?obj"
    by (simp add: store0_def world0_def get_key_for_id_def)
  have h3: "decode_with store0 (ContentEncoding ?obj) (Body ?obj) = Inr ''zzz''"
    by (simp add: store0_def decode_with_def strategies_get_def compression_strategies_def
        run_codec_def)
  have h4: "choose_encoding store0 ''zzz'' = Inr (''Tz'', ''zstd'')"
    by (simp add: store0_def choose_encoding_def truthy_str_def compression_strategies_def
        run_codec_def)
  have h5: "fault world0 c = None" for c
    by (simp add: world0_def)
  show ?thesis
    using h1 h2 h3 h4 migration_stamps_today [OF h1 h2 h3 h4 h5 h5 h5 h5 h5]
    by (simp add: world0_def noon_def)
qed

section \<open>The order of a migration\<close>

lemma set_bytes_fresh:
  assumes "choose_encoding s v = Inr (d', enc)"
      and "fault w (InsertOne i) = None" and "collection w i = None"
  shows "set_bytes s i v ttl w =
           (Inr (), observe (InsertOne i)
              (w\<lparr>collection := (collection w)(i \<mapsto>
                    \<lparr>data = d', content_encoding = Some enc,
                     created_day = combine (date_of (utcnow w)) datetime_min_time\<rparr>)\<rparr>))"
  using assms by (simp add: set_bytes_def insert_one_def Let_def)

text \<open>
  C2, as the spec has it: the primary upsert comes before the archival delete, so that an
  observer may see the value in both tiers and never in neither. The code deletes first: after
  the delete and before the insert the id is in neither tier.
\<close>

theorem migration_deletes_first_counterexample:
  "observed store0 ''e2'' (snd (get_bytes store0 ''e2'' world0)) =
     [(FindOne ''e2'', ArchivalOnly),
      (GetObject ''nodestore'' ''cold/e2'', ArchivalOnly),
      (DeleteObject ''nodestore'' ''cold/e2'', Absent),
      (InsertOne ''e2'', PrimaryOnly)]"
  by (simp add: observed_def state_of_def get_bytes_def find_one_def read_from_bucket_def
      get_object_def delete_object_def set_bytes_def insert_one_def choose_encoding_def
      decode_with_def strategies_get_def compression_strategies_def truthy_str_def
      except_NoSuchKey_def get_key_for_id_def observe_def store0_def world0_def run_codec_def
      Let_def)

text \<open>
  C2, amended. During the migration of an id that only the archival tier holds, the archival
  delete comes before the primary insert; between the two calls an observer sees the id in
  neither tier (\<open>Absent\<close>), and at no point in both (\<open>TransientBoth\<close>).
\<close>

theorem migration_deletes_first:
  assumes "read_from_s3 s" and "collection w i = None"
      and "objects w (bucket_name s, get_key_for_id s i) = Some obj"
      and "decode_with s (ContentEncoding obj) (Body obj) = Inr v"
      and "choose_encoding s v = Inr (d', enc)"
      and "fault w (FindOne i) = None"
      and "fault w (GetObject (bucket_name s) (get_key_for_id s i)) = None"
      and "fault w (DeleteObject (bucket_name s) (get_key_for_id s i)) = None"
      and "fault w (InsertOne i) = None"
  shows "observed s i (snd (get_bytes s i w)) =
           observed s i w @
             [(FindOne i, ArchivalOnly),
              (GetObject (bucket_name s) (get_key_for_id s i), ArchivalOnly),
              (DeleteObject (bucket_name s) (get_key_for_id s i), Absent),
              (InsertOne i, PrimaryOnly)]"
proof -
  let ?k = "get_key_for_id s i" and ?b = "bucket_name s"
  let ?w0 = "observe (FindOne i) w"
  let ?w1 = "observe (GetObject ?b ?k) ?w0"
  let ?w2 = "observe (DeleteObject ?b ?k) (?w1\<lparr>objects := (objects w)((?b, ?k) := None)\<rparr>)"
  have eq: "get_bytes s i w = read_from_bucket s i ?w0"
    using assms(1,2,6) by (simp add: get_bytes_miss)
  have g: "get_object ?b ?k ?w0 = (Inr obj, ?w1)"
    using assms(3,7) by (simp add: get_object_def)
  have d: "delete_object ?b ?k ?w1 = (Inr (), ?w2)"
    using assms(3,8) by (simp add: delete_object_def)
  have f2: "fault ?w2 (InsertOne i) = None" "collection ?w2 i = None"
    using assms(2,9) by simp_all
  note r' = set_bytes_fresh [OF assms(5) f2, of None]
  have rb: "read_from_bucket s i ?w0 = (Inr (Some v), snd (set_bytes s i v None ?w2))"
    by (simp add: read_from_bucket_def g d r' assms(4) except_NoSuchKey_def)
  have "history (snd (set_bytes s i v None ?w2)) = history ?w2 @ [(InsertOne i,
             (collection ?w2)(i \<mapsto> \<lparr>data = d', content_encoding = Some enc,
                                   created_day = combine (date_of (utcnow ?w2)) datetime_min_time\<rparr>),
             objects ?w2)]"
    by (simp add: r')
  then show ?thesis
    using assms(2,3) by (simp add: eq rb observed_def state_of_def)
qed

theorem migration_deletes_first_witness:
  "read_from_s3 store0 \<and> collection world0 ''e2'' = None \<and>
   objects world0 (bucket_name store0, get_key_for_id store0 ''e2'') =
     Some \<lparr>Body = ''Tz'', ContentEncoding = Some ''zstd'', LastModified = long_ago\<rparr> \<and>
   decode_with store0 (Some ''zstd'') ''Tz'' = Inr ''zzz'' \<and>
   choose_encoding store0 ''zzz'' = Inr (''Tz'', ''zstd'') \<and>
   map snd (observed store0 ''e2'' (snd (get_bytes store0 ''e2'' world0))) =
     [ArchivalOnly, ArchivalOnly, Absent, PrimaryOnly]"
proof -
  let ?obj = "\<lparr>Body = ''Tz'', ContentEncoding = Some ''zstd'', LastModified = long_ago\<rparr>"
  have h1: "read_from_s3 store0" "collection world0 ''e2'' = None"
    by (simp_all add: store0_def world0_def)
  have h2: "objects world0 (bucket_name store0, get_key_for_id store0 ''e2'') = Some ?obj"
    by (simp add: store0_def world0_def get_key_for_id_def)
  have h3: "decode_with store0 (ContentEncoding ?obj) (Body ?obj) = Inr ''zzz''"
    by (simp add: store0_def decode_with_def strategies_get_def compression_strategies_def
        run_codec_def)
  have h4: "choose_encoding store0 ''zzz'' = Inr (''Tz'', ''zstd'')"
    by (simp add: store0_def choose_encoding_def truthy_str_def compression_strategies_def
        run_codec_def)
  have h5: "fault world0 c = None" for c
    by (simp add: world0_def)
  have h6: "observed store0 ''e2'' world0 = []"
    by (simp add: observed_def world0_def)
  show ?thesis
    using h1 h2 h3 h4 migration_deletes_first [OF h1 h2 h3 h4 h5 h5 h5 h5]
    by (simp add: h6)
qed

section \<open>A failing archival delete\<close>

text \<open>
  C3, as the spec has it: a delete that fails with anything but not-found leaves the read
  successful. In the code the failure leaves \<open>get\<close> as an exception.
\<close>

theorem delete_failure_fails_get_counterexample:
  "fault world_denied (DeleteObject ''nodestore'' ''cold/e2'') = Some (ClientError ''AccessDenied'') \<and>
   fst (get_bytes store0 ''e2'' world_denied) = Inl (ClientError ''AccessDenied'')"
  by (simp add: get_bytes_def find_one_def read_from_bucket_def
      get_object_def delete_object_def
      decode_with_def strategies_get_def compression_strategies_def
      except_NoSuchKey_def get_key_for_id_def observe_def store0_def world0_def world_denied_def
      run_codec_def)

text \<open>
  C3, amended. When the archival delete of the migration fails, only \<open>NoSuchKey\<close> is swallowed:
  the read then returns the decoded value. Any other failure of the delete is raised to the
  caller of \<open>get\<close>. In both cases nothing is written: the two tiers are as before the read.
\<close>

theorem delete_failure_in_get:
  assumes "read_from_s3 s" and "collection w i = None"
      and "objects w (bucket_name s, get_key_for_id s i) = Some obj"
      and "decode_with s (ContentEncoding obj) (Body obj) = Inr v"
      and "fault w (FindOne i) = None"
      and "fault w (GetObject (bucket_name s) (get_key_for_id s i)) = None"
      and "fault w (DeleteObject (bucket_name s) (get_key_for_id s i)) = Some e"
  shows "fst (get_bytes s i w) = (if e = NoSuchKey then Inr (Some v) else Inl e) \<and>
         collection (snd (get_bytes s i w)) = collection w \<and>
         objects (snd (get_bytes s i w)) = objects w"
proof -
  let ?k = "get_key_for_id s i" and ?b = "bucket_name s"
  let ?w0 = "observe (FindOne i) w"
  let ?w1 = "observe (GetObject ?b ?k) ?w0"
  have eq: "get_bytes s i w = read_from_bucket s i ?w0"
    using assms(1,2,5) by (simp add: get_bytes_miss)
  have g: "get_object ?b ?k ?w0 = (Inr obj, ?w1)"
    using assms(3,6) by (simp add: get_object_def)
  have d: "delete_object ?b ?k ?w1 = (Inl e, observe (DeleteObject ?b ?k) ?w1)"
    using assms(7) by (simp add: delete_object_def)
  show ?thesis
    by (cases e) (simp_all add: eq read_from_bucket_def g d assms(4) except_NoSuchKey_def)
qed

theorem delete_failure_in_get_witness:
  "read_from_s3 store0 \<and> collection world_denied ''e2'' = None \<and>
   objects world_denied (bucket_name store0, get_key_for_id store0 ''e2'') =
     Some \<lparr>Body = ''Tz'', ContentEncoding = Some ''zstd'', LastModified = long_ago\<rparr> \<and>
   decode_with store0 (Some ''zstd'') ''Tz'' = Inr ''zzz'' \<and>
   fault world_denied (DeleteObject (bucket_name store0) (get_key_for_id store0 ''e2'')) =
     Some (ClientError ''AccessDenied'') \<and>
   fst (get_bytes store0 ''e2'' world_denied) = Inl (ClientError ''AccessDenied'') \<and>
   collection (snd (get_bytes store0 ''e2'' world_denied)) = collection world_denied \<and>
   objects (snd (get_bytes store0 ''e2'' world_denied)) = objects world_denied"
proof -
  let ?obj = "\<lparr>Body = ''Tz'', ContentEncoding = Some ''zstd'', LastModified = long_ago\<rparr>"
  have h1: "read_from_s3 store0" "collection world_denied ''e2'' = None"
    by (simp_all add: store0_def world0_def world_denied_def)
  have h2: "objects world_denied (bucket_name store0, get_key_for_id store0 ''e2'') = Some ?obj"
    by (simp add: store0_def world0_def world_denied_def get_key_for_id_def)
  have h3: "decode_with store0 (ContentEncoding ?obj) (Body ?obj) = Inr ''zzz''"
    by (simp add: store0_def decode_with_def strategies_get_def compression_strategies_def
        run_codec_def)
  have h4: "fault world_denied (FindOne ''e2'') = None"
    "fault world_denied (GetObject (bucket_name store0) (get_key_for_id store0 ''e2'')) = None"
    by (simp_all add: world_denied_def)
  have h5: "fault world_denied (DeleteObject (bucket_name store0) (get_key_for_id store0 ''e2'')) =
     Some (ClientError ''AccessDenied'')"
    by (simp add: world_denied_def store0_def get_key_for_id_def)
  show ?thesis
    using h1 h2 h3 h5 delete_failure_in_get [OF h1 h2 h3 h4 h5]
    by simp
qed

section \<open>Compression that does not shrink\<close>

text \<open>
  C4, as the spec has it: a tag is stored only when the encoded form is strictly smaller. At
  equal length the code stores the encoded form with its tag.
\<close>

theorem set_bytes_equal_length_counterexample:
  "length (encode run_codec ''aab'') = length ''aab'' \<and>
   collection (snd (set_bytes store0 ''e1'' ''aab'' None world0)) ''e1'' =
     Some \<lparr>data = ''Dab'', content_encoding = Some ''zstd'',
           created_day = \<lparr>year = 2024, month = 5, day = 17, hour = 0, minute = 0, second = 0,
                          microsecond = 0\<rparr>\<rparr>"
  by (simp add: set_bytes_def choose_encoding_def truthy_str_def compression_strategies_def
      store0_def world0_def run_codec_def insert_one_def observe_def Let_def date_of_def
      datetime_min_time_def noon_def)

text \<open>
  C4, amended. A write with compression configured never stores more bytes than the payload
  has: the tag is non-empty only when the encoded form is no longer than the payload; when the
  encoded form is strictly longer the raw bytes are stored with the empty tag, and at equal
  length the encoded form is stored with the codec's name.
\<close>

theorem set_bytes_never_grows:
  assumes "compression s = Some name" and "name \<noteq> []"
      and "compression_strategies s name = Some c"
      and "fault w (InsertOne i) = None" and "fault w (UpdateOne i) = None"
  shows "fst (set_bytes s i v ttl w) = Inr () \<and>
         (\<exists>doc. collection (snd (set_bytes s i v ttl w)) i = Some doc \<and>
            length (data doc) \<le> length v \<and>
            (content_encoding doc \<noteq> Some [] \<longrightarrow> length (encode c v) \<le> length v) \<and>
            (length v < length (encode c v) \<longrightarrow> data doc = v \<and> content_encoding doc = Some []) \<and>
            (length (encode c v) = length v \<longrightarrow>
               data doc = encode c v \<and> content_encoding doc = Some name))"
proof -
  let ?p = "if length (encode c v) \<le> length v then (encode c v, name) else (v, [])"
  have ch: "choose_encoding s v = Inr (fst ?p, snd ?p)"
    using assms(1-3) by (simp add: choose_encoding_configured)
  show ?thesis
    using set_bytes_ok(1,2) [OF ch assms(4,5), of ttl] assms(2) by simp
qed

theorem set_bytes_never_grows_witness:
  "compression store0 = Some ''zstd'' \<and> ''zstd'' \<noteq> [] \<and>
   compression_strategies store0 ''zstd'' = Some run_codec \<and>
   fault world0 (InsertOne ''e1'') = None \<and> fault world0 (UpdateOne ''e1'') = None \<and>
   length ''abc'' < length (encode run_codec ''abc'') \<and>
   fst (set_bytes store0 ''e1'' ''abc'' None world0) = Inr () \<and>
   map_option data (collection (snd (set_bytes store0 ''e1'' ''abc'' None world0)) ''e1'')
     = Some ''abc'' \<and>
   map_option content_encoding (collection (snd (set_bytes store0 ''e1'' ''abc'' None world0)) ''e1'')
     = Some (Some [])"
proof -
  have h: "compression store0 = Some ''zstd''" "''zstd'' \<noteq> []"
    "compression_strategies store0 ''zstd'' = Some run_codec"
    "fault world0 (InsertOne ''e1'') = None" "fault world0 (UpdateOne ''e1'') = None"
    by (simp_all add: store0_def world0_def compression_strategies_def)
  show ?thesis
    using h set_bytes_never_grows [OF h, of "''abc''" None]
    by (auto simp: run_codec_def)
qed

section \<open>Reading back what was written\<close>

text \<open>
  C6. When the decoder of the configured codec is a left inverse of its encoder, and the calls
  to MongoDB do not fail, a write of \<open>v\<close> under an id followed by a read of the id returns
  \<open>v\<close>, whether the write compressed \<open>v\<close> or stored it raw.
\<close>

theorem set_then_get:
  assumes "truthy_str (compression s) \<longrightarrow>
             (\<exists>c. compression_strategies s (the (compression s)) = Some c \<and>
                  (\<forall>x. decode c (encode c x) = Inr x))"
      and "fault w (InsertOne i) = None" and "fault w (UpdateOne i) = None"
      and "fault w (FindOne i) = None"
  shows "fst (set_bytes s i v ttl w) = Inr () \<and>
         fst (get_bytes s i (snd (set_bytes s i v ttl w))) = Inr (Some v)"
proof -
  obtain d' enc where ch: "choose_encoding s v = Inr (d', enc)"
    and dec: "decode_with s (Some enc) d' = Inr v"
  proof (cases "truthy_str (compression s)")
    case False
    have "choose_encoding s v = Inr (v, [])"
      using False by (simp add: choose_encoding_def)
    moreover have "decode_with s (Some []) v = Inr v"
      by (simp add: decode_with_def strategies_get_def compression_strategies_def)
    ultimately show ?thesis using that by blast
  next
    case True
    then obtain name where n: "compression s = Some name" "name \<noteq> []"
      by (auto simp: truthy_str_def split: option.splits)
    from True assms(1) n obtain c where c: "compression_strategies s name = Some c"
      and rt: "\<forall>x. decode c (encode c x) = Inr x" by auto
    show ?thesis
    proof (cases "length (encode c v) \<le> length v")
      case True
      have "choose_encoding s v = Inr (encode c v, name)"
        using True by (simp add: choose_encoding_configured [OF n c])
      moreover have "decode_with s (Some name) (encode c v) = Inr v"
        using c rt by (simp add: decode_with_def strategies_get_def)
      ultimately show ?thesis using that by blast
    next
      case False
      have "choose_encoding s v = Inr (v, [])"
        using False by (simp add: choose_encoding_configured [OF n c])
      moreover have "decode_with s (Some []) v = Inr v"
        by (simp add: decode_with_def strategies_get_def compression_strategies_def)
      ultimately show ?thesis using that by blast
    qed
  qed
  let ?w' = "snd (set_bytes s i v ttl w)"
  note sb = set_bytes_ok [OF ch assms(2,3), of ttl]
  have "get_bytes s i ?w' = (Inr (Some v), observe (FindOne i) ?w')"
    using sb(2,4) assms(4) dec by (simp add: get_bytes_def find_one_def)
  with sb(1) show ?thesis by simp
qed

theorem set_then_get_witness:
  "truthy_str (compression store0) \<and>
   compression_strategies store0 (the (compression store0)) = Some run_codec \<and>
   (\<forall>x. decode run_codec (encode run_codec x) = Inr x) \<and>
   choose_encoding store0 ''aaaa'' = Inr (''Taa'', ''zstd'') \<and>
   fst (get_bytes store0 ''e1'' (snd (set_bytes store0 ''e1'' ''aaaa'' None world0))) =
     Inr (Some ''aaaa'') \<and>
   choose_encoding store0 ''abc'' = Inr (''abc'', []) \<and>
   fst (get_bytes store0 ''e1'' (snd (set_bytes store0 ''e1'' ''abc'' None world0))) =
     Inr (Some ''abc'')"
proof -
  have h: "truthy_str (compression store0) \<longrightarrow>
      (\<exists>c. compression_strategies store0 (the (compression store0)) = Some c \<and>
           (\<forall>x. decode c (encode c x) = Inr x))"
    by (simp add: store0_def compression_strategies_def run_codec_def run_roundtrip)
  have f: "fault world0 c = None" for c by (simp add: world0_def)
  have c: "choose_encoding store0 ''aaaa'' = Inr (''Taa'', ''zstd'')"
    "choose_encoding store0 ''abc'' = Inr (''abc'', [])"
    by (simp_all add: store0_def choose_encoding_def truthy_str_def compression_strategies_def
        run_codec_def)
  have t: "truthy_str (compression store0)"
    "compression_strategies store0 (the (compression store0)) = Some run_codec"
    "\<forall>x. decode run_codec (encode run_codec x) = Inr x"
    by (simp_all add: store0_def truthy_str_def compression_strategies_def run_codec_def
        run_roundtrip)
  show ?thesis
    using t c set_then_get [OF h f f f, of "''e1''" "''aaaa''" None]
      set_then_get [OF h f f f, of "''e1''" "''abc''" None]
    by simp
qed

section \<open>Construction\<close>

text \<open>An exception of \<open>create_index\<close> that is not an \<open>OperationFailure\<close> leaves the constructor.\<close>

lemma init_propagates_other:
  "fault w (CreateIndex (n * 24 * 3600)) = Some (PyMongoError m) \<Longrightarrow> default_ttl_days s = Some n \<Longrightarrow> n \<noteq> 0
   \<Longrightarrow> fst (init s w) = Inl (PyMongoError m)"
  by (simp add: init_def truthy_int_def create_index_def)

text \<open>
  C9. A failure of the TTL index provisioning that is not an index-option conflict should
  reach the caller. The constructor's handler catches every \<open>OperationFailure\<close> and re-raises
  none: here the user may not create indexes, and the constructor returns the instance, with
  no index made.
\<close>

theorem init_swallows_operation_failure:
  "fault world_unauthorized (CreateIndex (the (default_ttl_days store0) * 24 * 3600)) =
     Some (OperationFailure ''not authorized on sentry_nodestore'') \<and>
   fst (init store0 world_unauthorized) = Inr store0 \<and>
   ttl_index (snd (init store0 world_unauthorized)) = None"
  by (simp add: init_def store0_def world_unauthorized_def world0_def truthy_int_def
      create_index_def observe_def sublist_code)

section \<open>What a fallback read can change\<close>

lemma get_key_for_id_inj: "get_key_for_id s i = get_key_for_id s j \<longleftrightarrow> i = j"
  by (simp add: get_key_for_id_def split: option.splits)

lemma snd_except_NoSuchKey: "snd (except_NoSuchKey v r) = snd r"
  by (cases r) (auto simp: except_NoSuchKey_def split: sum.splits error.splits)


lemma insert_one_frame:
  "fault (snd (insert_one i doc w)) = fault w"
  "utcnow (snd (insert_one i doc w)) = utcnow w"
  "objects (snd (insert_one i doc w)) = objects w"
  "j \<noteq> i \<Longrightarrow> collection (snd (insert_one i doc w)) j = collection w j"
  by (simp_all add: insert_one_def split: option.splits)

lemma update_one_frame:
  "fault (snd (update_one i doc w)) = fault w"
  "utcnow (snd (update_one i doc w)) = utcnow w"
  "objects (snd (update_one i doc w)) = objects w"
  "j \<noteq> i \<Longrightarrow> collection (snd (update_one i doc w)) j = collection w j"
  by (simp_all add: update_one_def split: option.splits)

lemma set_bytes_world:
  "snd (set_bytes s i v ttl w) = w \<or>
   (\<exists>doc. snd (set_bytes s i v ttl w) = snd (insert_one i doc w)) \<or>
   (\<exists>doc. snd (set_bytes s i v ttl w) = snd (update_one i doc (snd (insert_one i doc w))))"
proof (cases "choose_encoding s v")
  case (Inl e)
  then show ?thesis by (simp add: set_bytes_def)
next
  case (Inr p)
  obtain d' enc where p: "p = (d', enc)" by (cases p)
  let ?doc = "\<lparr>data = d', content_encoding = Some enc,
               created_day = combine (date_of (utcnow w)) datetime_min_time\<rparr>"
  obtain r w1 where i: "insert_one i ?doc w = (r, w1)" by (cases "insert_one i ?doc w")
  show ?thesis
  proof (cases "r = Inl DuplicateKeyError")
    case True
    then have "snd (set_bytes s i v ttl w) = snd (update_one i ?doc (snd (insert_one i ?doc w)))"
      using Inr p i by (simp add: set_bytes_def Let_def)
    then show ?thesis by blast
  next
    case False
    then have "snd (set_bytes s i v ttl w) = snd (insert_one i ?doc w)"
      using Inr p i by (auto simp: set_bytes_def Let_def split: sum.splits error.splits)
    then show ?thesis by blast
  qed
qed

lemma set_bytes_frame:
  "fault (snd (set_bytes s i v ttl w)) = fault w"
  "utcnow (snd (set_bytes s i v ttl w)) = utcnow w"
  "objects (snd (set_bytes s i v ttl w)) = objects w"
  "j \<noteq> i \<Longrightarrow> collection (snd (set_bytes s i v ttl w)) j = collection w j"
  using set_bytes_world [of s i v ttl w]
  by (auto simp: insert_one_frame update_one_frame)

lemma get_object_frame:
  "fault (snd (get_object b k w)) = fault w"
  "utcnow (snd (get_object b k w)) = utcnow w"
  "objects (snd (get_object b k w)) = objects w"
  "collection (snd (get_object b k w)) = collection w"
  by (simp_all add: get_object_def split: option.splits)

lemma delete_object_frame:
  "fault (snd (delete_object b k w)) = fault w"
  "utcnow (snd (delete_object b k w)) = utcnow w"
  "collection (snd (delete_object b k w)) = collection w"
  "k' \<noteq> (b, k) \<Longrightarrow> objects (snd (delete_object b k w)) k' = objects w k'"
  "objects w k' = None \<Longrightarrow> objects (snd (delete_object b k w)) k' = None"
  "objects (snd (delete_object b k w)) k' = Some obj \<Longrightarrow> objects w k' = Some obj"
  by (auto simp: delete_object_def split: option.splits if_splits)

text \<open>The world a fallback read leaves is the world after one of its three calls.\<close>

lemma read_from_bucket_world:
  "snd (read_from_bucket s i w) = snd (get_object (bucket_name s) (get_key_for_id s i) w) \<or>
   snd (read_from_bucket s i w) =
     snd (delete_object (bucket_name s) (get_key_for_id s i)
            (snd (get_object (bucket_name s) (get_key_for_id s i) w))) \<or>
   (\<exists>v. snd (read_from_bucket s i w) =
     snd (set_bytes s i v None
            (snd (delete_object (bucket_name s) (get_key_for_id s i)
               (snd (get_object (bucket_name s) (get_key_for_id s i) w))))))"
proof -
  let ?b = "bucket_name s" and ?k = "get_key_for_id s i"
  obtain r1 w1 where g: "get_object ?b ?k w = (r1, w1)" by (cases "get_object ?b ?k w")
  obtain r2 w2 where d: "delete_object ?b ?k w1 = (r2, w2)" by (cases "delete_object ?b ?k w1")
  show ?thesis
  proof (cases r1)
    case (Inl e)
    then show ?thesis by (simp add: read_from_bucket_def snd_except_NoSuchKey g)
  next
    case (Inr obj)
    note obj = this
    show ?thesis
    proof (cases "decode_with s (ContentEncoding obj) (Body obj)")
      case (Inl e)
      then show ?thesis by (simp add: read_from_bucket_def snd_except_NoSuchKey g obj)
    next
      case (Inr v)
      note v = this
      show ?thesis
      proof (cases r2)
        case (Inl e)
        then show ?thesis by (simp add: read_from_bucket_def snd_except_NoSuchKey g obj v d)
      next
        case (Inr u)
        obtain r3 w3 where sb: "set_bytes s i v None w2 = (r3, w3)"
          by (cases "set_bytes s i v None w2")
        have "snd (read_from_bucket s i w) = snd (set_bytes s i v None w2)"
          by (cases r3) (simp_all add: read_from_bucket_def snd_except_NoSuchKey g obj v d Inr sb)
        then show ?thesis using g d by auto
      qed
    qed
  qed
qed

lemma read_from_bucket_fault: "fault (snd (read_from_bucket s i w)) = fault w"
  using read_from_bucket_world [of s i w]
  by (elim disjE exE) (simp_all add: set_bytes_frame(1) delete_object_frame(1) get_object_frame(1))

lemma read_from_bucket_utcnow: "utcnow (snd (read_from_bucket s i w)) = utcnow w"
  using read_from_bucket_world [of s i w]
  by (elim disjE exE) (simp_all add: set_bytes_frame(2) delete_object_frame(2) get_object_frame(2))

lemma read_from_bucket_collection:
  "j \<noteq> i \<Longrightarrow> collection (snd (read_from_bucket s i w)) j = collection w j"
  using read_from_bucket_world [of s i w]
  by (elim disjE exE) (simp_all add: set_bytes_frame(4) delete_object_frame(3) get_object_frame(4))

lemma read_from_bucket_objects:
  "k' \<noteq> (bucket_name s, get_key_for_id s i) \<Longrightarrow>
     objects (snd (read_from_bucket s i w)) k' = objects w k'"
  using read_from_bucket_world [of s i w]
  by (elim disjE exE) (simp_all add: set_bytes_frame(3) delete_object_frame(4) get_object_frame(3))

lemma read_from_bucket_objects_None:
  "objects w k' = None \<Longrightarrow> objects (snd (read_from_bucket s i w)) k' = None"
  using read_from_bucket_world [of s i w]
  by (elim disjE exE) (simp_all add: set_bytes_frame(3) delete_object_frame(5) get_object_frame(3))

lemma read_from_bucket_objects_Some:
  "objects (snd (read_from_bucket s i w)) k' = Some obj \<Longrightarrow> objects w k' = Some obj"
  using read_from_bucket_world [of s i w]
  by (elim disjE exE)
     (auto simp: set_bytes_frame(3) get_object_frame(3) dest: delete_object_frame(6))

lemma read_from_bucket_absent:
  assumes "objects w (bucket_name s, get_key_for_id s i) = None"
      and "fst (read_from_bucket s i w) = Inr v"
  shows "v = None"
proof -
  let ?b = "bucket_name s" and ?k = "get_key_for_id s i"
  obtain e where "get_object ?b ?k w = (Inl e, observe (GetObject ?b ?k) w)"
    using assms(1) by (cases "fault w (GetObject ?b ?k)") (simp_all add: get_object_def)
  then have "read_from_bucket s i w =
      except_NoSuchKey None (Inl e, observe (GetObject ?b ?k) w)"
    by (simp add: read_from_bucket_def)
  with assms(2) show ?thesis
    by (cases e) (simp_all add: except_NoSuchKey_def)
qed

section \<open>The loops of the batched read\<close>

lemma decode_docs_other:
  "decode_docs s docs r = Inr r' \<Longrightarrow> i \<notin> fst ` set docs \<Longrightarrow> r' i = r i"
  by (induction docs arbitrary: r) (auto split: sum.splits)

lemma decode_docs_dom:
  "decode_docs s docs r = Inr r' \<Longrightarrow> dom r' = dom r \<union> fst ` set docs"
proof (induction docs arbitrary: r)
  case Nil
  then show ?case by simp
next
  case (Cons p docs)
  obtain j doc where p: "p = (j, doc)" by (cases p)
  from Cons.prems p obtain v where
    rest: "decode_docs s docs (r(j \<mapsto> Some v)) = Inr r'"
    by (auto split: sum.splits)
  from Cons.IH [OF rest] p show ?case by auto
qed

lemma map_filter_found:
  "fst ` set (List.map_filter (\<lambda>i. map_option (Pair i) (c i)) xs) = {i \<in> set xs. c i \<noteq> None}"
  by (induction xs) (auto simp: map_filter_simps split: option.splits)

lemma find_in_ids:
  "find_in ids w = (Inr docs, w1) \<Longrightarrow> fst ` set docs = {i \<in> set ids. collection w i \<noteq> None}"
proof -
  assume a: "find_in ids w = (Inr docs, w1)"
  then have "docs = List.map_filter (\<lambda>i. map_option (Pair i) (collection w i)) (remdups ids)"
    by (cases "fault w (Find ids)") (simp_all add: find_in_def)
  then show ?thesis
    using map_filter_found [of "collection w" "remdups ids"] by simp
qed

lemma find_in_world:
  "find_in ids w = (r, w1) \<Longrightarrow>
     collection w1 = collection w \<and> objects w1 = objects w \<and> fault w1 = fault w \<and>
     utcnow w1 = utcnow w"
  by (cases "fault w (Find ids)") (auto simp: find_in_def)

lemma fill_none_at:
  "fill_none ids r i = (if r i = None \<and> i \<in> set ids then Some None else r i)"
  by (induction ids arbitrary: r) auto

lemma fill_none_dom: "dom (fill_none ids r) = dom r \<union> set ids"
  by (auto simp: fill_none_at dom_def)

lemma read_missing_dom:
  "read_missing s ms r w = (Inr r', w') \<Longrightarrow> dom r' = dom r \<union> set ms"
proof (induction ms arbitrary: r w)
  case Nil
  then show ?case by simp
next
  case (Cons j ms)
  obtain x w1 where rb: "read_from_bucket s j w = (x, w1)" by (cases "read_from_bucket s j w")
  with Cons.prems obtain v where x: "x = Inr v" by (cases x) auto
  with Cons.prems rb have "read_missing s ms (r(j \<mapsto> v)) w1 = (Inr r', w')" by simp
  from Cons.IH [OF this] show ?case by auto
qed

lemma read_missing_absent:
  "read_missing s ms r w = (Inr r', w') \<Longrightarrow>
   objects w (bucket_name s, get_key_for_id s i) = None \<Longrightarrow>
   i \<in> set ms \<or> r i = Some None \<Longrightarrow> r' i = Some None"
proof (induction ms arbitrary: r w)
  case Nil
  then show ?case by simp
next
  case (Cons j ms)
  obtain x w1 where rb: "read_from_bucket s j w = (x, w1)" by (cases "read_from_bucket s j w")
  with Cons.prems(1) obtain v where x: "x = Inr v" by (cases x) auto
  with Cons.prems(1) rb have rest: "read_missing s ms (r(j \<mapsto> v)) w1 = (Inr r', w')" by simp
  have o: "objects w1 (bucket_name s, get_key_for_id s i) = None"
    using read_from_bucket_objects_None [OF Cons.prems(2), of s j] rb by simp
  have "i \<in> set ms \<or> (r(j \<mapsto> v)) i = Some None"
  proof (cases "j = i")
    case True
    have "v = None"
      using read_from_bucket_absent [OF Cons.prems(2), of v] rb x True by simp
    with True show ?thesis by simp
  next
    case False
    with Cons.prems(3) show ?thesis by auto
  qed
  from Cons.IH [OF rest o this] show ?case .
qed

lemma read_missing_world:
  "read_missing s ms r w = (x, w') \<Longrightarrow> fault w' = fault w \<and> utcnow w' = utcnow w"
proof (induction ms arbitrary: r w)
  case Nil
  then show ?case by simp
next
  case (Cons j ms)
  obtain y w1 where rb: "read_from_bucket s j w = (y, w1)" by (cases "read_from_bucket s j w")
  have w1: "fault w1 = fault w" "utcnow w1 = utcnow w"
    using read_from_bucket_fault [of s j w] read_from_bucket_utcnow [of s j w] rb by simp_all
  show ?case
  proof (cases y)
    case (Inl e)
    with Cons.prems rb w1 show ?thesis by auto
  next
    case (Inr v)
    with Cons.prems rb have "read_missing s ms (r(j \<mapsto> v)) w1 = (x, w')" by simp
    from Cons.IH [OF this] w1 show ?thesis by simp
  qed
qed

lemma read_from_bucket_total:
  assumes "\<forall>c. fault w c = None"
      and "\<forall>k obj. objects w k = Some obj \<longrightarrow>
             (\<exists>v. decode_with s (ContentEncoding obj) (Body obj) = Inr v)"
      and "\<forall>v. \<exists>p. choose_encoding s v = Inr p"
  shows "\<exists>v. fst (read_from_bucket s i w) = Inr v"
proof (cases "objects w (bucket_name s, get_key_for_id s i)")
  case None
  then have "read_from_bucket s i w =
      (Inr None, observe (GetObject (bucket_name s) (get_key_for_id s i)) w)"
    using assms(1) by (simp add: read_from_bucket_def get_object_def except_NoSuchKey_def)
  then show ?thesis by simp
next
  case (Some obj)
  with assms(2) obtain v where v: "decode_with s (ContentEncoding obj) (Body obj) = Inr v"
    by blast
  from assms(3) obtain p where p: "choose_encoding s v = Inr p" by blast
  obtain d' enc where "p = (d', enc)" by (cases p)
  with p have ch: "choose_encoding s v = Inr (d', enc)" by simp
  have "fst (read_from_bucket s i w) = Inr (Some v)"
    by (rule read_from_bucket_ok(1) [OF Some v ch]) (simp_all add: assms(1))
  then show ?thesis by blast
qed

lemma read_missing_total:
  assumes "\<forall>c. fault w c = None"
      and "\<forall>k obj. objects w k = Some obj \<longrightarrow>
             (\<exists>v. decode_with s (ContentEncoding obj) (Body obj) = Inr v)"
      and "\<forall>v. \<exists>p. choose_encoding s v = Inr p"
  shows "\<exists>r'. fst (read_missing s ms r w) = Inr r'"
  using assms(1,2)
proof (induction ms arbitrary: r w)
  case Nil
  then show ?case by simp
next
  case (Cons j ms)
  from read_from_bucket_total [OF Cons.prems assms(3), of j]
  obtain v where v: "fst (read_from_bucket s j w) = Inr v" by blast
  obtain x w1 where "read_from_bucket s j w = (x, w1)" by (cases "read_from_bucket s j w")
  with v have rb: "read_from_bucket s j w = (Inr v, w1)" by simp
  have f: "\<forall>c. fault w1 c = None"
    using read_from_bucket_fault [of s j w] rb Cons.prems(1) by simp
  have o: "\<forall>k obj. objects w1 k = Some obj \<longrightarrow>
             (\<exists>v. decode_with s (ContentEncoding obj) (Body obj) = Inr v)"
  proof (intro allI impI)
    fix k obj
    assume "objects w1 k = Some obj"
    then have "objects w k = Some obj"
      using read_from_bucket_objects_Some [of s j w k obj] rb by simp
    with Cons.prems(2) show "\<exists>v. decode_with s (ContentEncoding obj) (Body obj) = Inr v"
      by blast
  qed
  from Cons.IH [OF f o, of "r(j \<mapsto> v)"]
  obtain r' where "fst (read_missing s ms (r(j \<mapsto> v)) w1) = Inr r'" by blast
  with rb have "fst (read_missing s (j # ms) r w) = Inr r'" by simp
  then show ?case by blast
qed

lemma map_filter_member:
  "(i, doc) \<in> set (List.map_filter (\<lambda>i. map_option (Pair i) (c i)) xs) \<Longrightarrow> c i = Some doc"
  by (induction xs) (auto split: option.splits)

lemma find_in_docs:
  assumes "find_in ids w = (Inr docs, w1)" and "(i, doc) \<in> set docs"
  shows "collection w i = Some doc"
proof -
  from assms(1)
  have "docs = List.map_filter (\<lambda>i. map_option (Pair i) (collection w i)) (remdups ids)"
    by (cases "fault w (Find ids)") (simp_all add: find_in_def)
  with assms(2)
  have "(i, doc) \<in> set (List.map_filter (\<lambda>i. map_option (Pair i) (collection w i)) (remdups ids))"
    by simp
  then show ?thesis by (rule map_filter_member)
qed

lemma decode_docs_total:
  "\<forall>(i, doc) \<in> set docs. \<exists>v. decode_with s (content_encoding doc) (data doc) = Inr v \<Longrightarrow>
   \<exists>r'. decode_docs s docs r = Inr r'"
proof (induction docs arbitrary: r)
  case Nil
  then show ?case by simp
next
  case (Cons p docs)
  obtain j doc where p: "p = (j, doc)" by (cases p)
  with Cons.prems obtain v where v: "decode_with s (content_encoding doc) (data doc) = Inr v"
    by auto
  from Cons.prems have "\<forall>(i, doc) \<in> set docs. \<exists>v. decode_with s (content_encoding doc) (data doc) = Inr v"
    by simp
  from Cons.IH [OF this, of "r(j \<mapsto> Some v)"]
  obtain r' where "decode_docs s docs (r(j \<mapsto> Some v)) = Inr r'" by blast
  with p v have "decode_docs s (p # docs) r = Inr r'" by simp
  then show ?case by blast
qed

text \<open>The batched read, split at its three loops.\<close>

lemma get_bytes_multi_Inr:
  assumes "fst (get_bytes_multi s ids w) = Inr result"
  obtains docs w1 r1 r2 w2 where
    "find_in ids w = (Inr docs, w1)" and "decode_docs s docs Map.empty = Inr r1"
    and "if read_from_s3 s
         then read_missing s (filter (\<lambda>i. r1 i = None) ids) r1 w1 = (Inr r2, w2)
         else r2 = r1 \<and> w2 = w1"
    and "result = fill_none ids r2" and "snd (get_bytes_multi s ids w) = w2"
proof -
  obtain x w1 where f: "find_in ids w = (x, w1)" by (cases "find_in ids w")
  with assms obtain docs where x: "x = Inr docs"
    by (cases x) (auto simp: get_bytes_multi_def)
  from assms f x obtain r1 where d: "decode_docs s docs Map.empty = Inr r1"
    by (cases "decode_docs s docs Map.empty") (auto simp: get_bytes_multi_def)
  show ?thesis
  proof (cases "read_from_s3 s")
    case False
    with assms f x d have "result = fill_none ids r1" "snd (get_bytes_multi s ids w) = w1"
      by (auto simp: get_bytes_multi_def)
    with that [of docs w1 r1 r1 w1] f x d False show ?thesis by simp
  next
    case True
    obtain y w2 where m: "read_missing s (filter (\<lambda>i. r1 i = None) ids) r1 w1 = (y, w2)"
      by (cases "read_missing s (filter (\<lambda>i. r1 i = None) ids) r1 w1")
    with assms f x d True obtain r2 where y: "y = Inr r2"
      by (cases y) (auto simp: get_bytes_multi_def)
    with assms f x d True m have "result = fill_none ids r2" "snd (get_bytes_multi s ids w) = w2"
      by (auto simp: get_bytes_multi_def)
    with that [of docs w1 r1 r2 w2] f x d True m y show ?thesis by simp
  qed
qed

section \<open>Completeness of the batched read\<close>

lemma get_bytes_multi_dom:
  assumes "fst (get_bytes_multi s ids w) = Inr result"
  shows "dom result = set ids"
proof -
  from assms obtain docs w1 r1 r2 w2 where
    f: "find_in ids w = (Inr docs, w1)" and d: "decode_docs s docs Map.empty = Inr r1"
    and m: "if read_from_s3 s
         then read_missing s (filter (\<lambda>i. r1 i = None) ids) r1 w1 = (Inr r2, w2)
         else r2 = r1 \<and> w2 = w1"
    and r: "result = fill_none ids r2"
    by (rule get_bytes_multi_Inr)
  have r1: "dom r1 \<subseteq> set ids"
    using decode_docs_dom [OF d] find_in_ids [OF f] by auto
  have "dom r2 \<subseteq> set ids"
  proof (cases "read_from_s3 s")
    case True
    with m have "dom r2 = dom r1 \<union> set (filter (\<lambda>i. r1 i = None) ids)"
      by (simp add: read_missing_dom)
    with r1 show ?thesis by auto
  next
    case False
    with m r1 show ?thesis by simp
  qed
  then show ?thesis by (auto simp: r fill_none_dom)
qed

lemma get_bytes_multi_absent:
  assumes "fst (get_bytes_multi s ids w) = Inr result" and "i \<in> set ids"
      and "collection w i = None"
      and "read_from_s3 s \<longrightarrow> objects w (bucket_name s, get_key_for_id s i) = None"
  shows "result i = Some None"
proof -
  from assms(1) obtain docs w1 r1 r2 w2 where
    f: "find_in ids w = (Inr docs, w1)" and d: "decode_docs s docs Map.empty = Inr r1"
    and m: "if read_from_s3 s
         then read_missing s (filter (\<lambda>i. r1 i = None) ids) r1 w1 = (Inr r2, w2)
         else r2 = r1 \<and> w2 = w1"
    and r: "result = fill_none ids r2"
    by (rule get_bytes_multi_Inr)
  have "i \<notin> fst ` set docs"
    using find_in_ids [OF f] assms(3) by simp
  then have r1: "r1 i = None"
    using decode_docs_other [OF d, of i] by simp
  have "r2 i = None \<or> r2 i = Some None"
  proof (cases "read_from_s3 s")
    case True
    with m have rm: "read_missing s (filter (\<lambda>i. r1 i = None) ids) r1 w1 = (Inr r2, w2)"
      by simp
    have o: "objects w1 (bucket_name s, get_key_for_id s i) = None"
      using find_in_world [OF f] assms(4) True by simp
    have "i \<in> set (filter (\<lambda>i. r1 i = None) ids)"
      using assms(2) r1 by simp
    then show ?thesis
      using read_missing_absent [OF rm o] by blast
  next
    case False
    with m r1 show ?thesis by simp
  qed
  with assms(2) show ?thesis by (auto simp: r fill_none_at)
qed

lemma get_bytes_multi_total:
  assumes "healthy s w"
  shows "\<exists>result. fst (get_bytes_multi s ids w) = Inr result"
proof -
  from assms have nf: "\<forall>c. fault w c = None"
    and dd: "\<forall>i doc. collection w i = Some doc \<longrightarrow>
        (\<exists>v. decode_with s (content_encoding doc) (data doc) = Inr v)"
    by (simp_all add: healthy_def)
  obtain docs w1 where f: "find_in ids w = (Inr docs, w1)"
    using nf by (simp add: find_in_def)
  have "\<forall>(i, doc) \<in> set docs. \<exists>v. decode_with s (content_encoding doc) (data doc) = Inr v"
    using find_in_docs [OF f] dd by blast
  from decode_docs_total [OF this, of Map.empty]
  obtain r1 where d: "decode_docs s docs Map.empty = Inr r1" by blast
  show ?thesis
  proof (cases "read_from_s3 s")
    case False
    then show ?thesis by (simp add: get_bytes_multi_def f d)
  next
    case True
    with assms have oo: "\<forall>k obj. objects w k = Some obj \<longrightarrow>
           (\<exists>v. decode_with s (ContentEncoding obj) (Body obj) = Inr v)"
      and ch: "\<forall>v. \<exists>p. choose_encoding s v = Inr p"
      by (simp_all add: healthy_def)
    have nf1: "\<forall>c. fault w1 c = None" and oo1: "\<forall>k obj. objects w1 k = Some obj \<longrightarrow>
           (\<exists>v. decode_with s (ContentEncoding obj) (Body obj) = Inr v)"
      using find_in_world [OF f] nf oo by simp_all
    from read_missing_total [OF nf1 oo1 ch, of "filter (\<lambda>i. r1 i = None) ids" r1]
    obtain r2 where "fst (read_missing s (filter (\<lambda>i. r1 i = None) ids) r1 w1) = Inr r2"
      by blast
    then obtain w2 where "read_missing s (filter (\<lambda>i. r1 i = None) ids) r1 w1 = (Inr r2, w2)"
      by (cases "read_missing s (filter (\<lambda>i. r1 i = None) ids) r1 w1") simp
    then show ?thesis by (simp add: get_bytes_multi_def f d True)
  qed
qed

lemma healthy_mixed: "healthy store0 world_mixed"
  by (auto simp: healthy_def world_mixed_def world0_def store0_def decode_with_def
      strategies_get_def compression_strategies_def run_codec_def choose_encoding_def
      truthy_str_def Let_def split: if_splits)

text \<open>
  C7. Whenever the batched read returns, for a list of ids with or without duplicates, the
  mapping has exactly the distinct input ids as keys, and every id that is in neither the
  primary tier nor, if enabled, the archival tier maps to \<open>None\<close>. In a healthy environment it
  does return.
\<close>

theorem get_bytes_multi_complete:
  "(\<forall>result. fst (get_bytes_multi s ids w) = Inr result \<longrightarrow>
      dom result = set ids \<and> card (dom result) = length (remdups ids) \<and>
      (\<forall>i \<in> set ids.
         collection w i = None \<and>
         (read_from_s3 s \<longrightarrow> objects w (bucket_name s, get_key_for_id s i) = None) \<longrightarrow>
         result i = Some None)) \<and>
   (healthy s w \<longrightarrow> (\<exists>result. fst (get_bytes_multi s ids w) = Inr result))"
proof (intro conjI allI impI ballI)
  fix result
  assume a: "fst (get_bytes_multi s ids w) = Inr result"
  show "dom result = set ids" by (rule get_bytes_multi_dom [OF a])
  then show "card (dom result) = length (remdups ids)"
    by (simp add: length_remdups_card_conv)
  fix i
  assume "i \<in> set ids"
    and "collection w i = None \<and>
         (read_from_s3 s \<longrightarrow> objects w (bucket_name s, get_key_for_id s i) = None)"
  then show "result i = Some None"
    using get_bytes_multi_absent [OF a] by blast
next
  assume "healthy s w"
  then show "\<exists>result. fst (get_bytes_multi s ids w) = Inr result"
    by (rule get_bytes_multi_total)
qed

theorem get_bytes_multi_complete_witness:
  "healthy store0 world_mixed \<and>
   (\<exists>result. fst (get_bytes_multi store0 [''e1'', ''e3'', ''e2'', ''e3''] world_mixed) = Inr result \<and>
      dom result = {''e1'', ''e2'', ''e3''} \<and> card (dom result) = 3 \<and>
      result ''e3'' = Some None)"
proof -
  have a: "collection world_mixed ''e3'' = None"
    "objects world_mixed (bucket_name store0, get_key_for_id store0 ''e3'') = None"
    by (simp_all add: world_mixed_def world0_def store0_def get_key_for_id_def)
  show ?thesis
    using healthy_mixed a
      get_bytes_multi_complete [of store0 "[''e1'', ''e3'', ''e2'', ''e3'']" world_mixed]
    by auto
qed

section \<open>Migration by the batched read\<close>

lemma count_list_filter_keep:
  "P i \<Longrightarrow> count_list (filter P xs) i = count_list xs i"
  by (induction xs) auto

lemma read_missing_frame:
  assumes "read_missing s ms r w = (Inr r', w')" and "i \<notin> set ms"
  shows "r' i = r i \<and> collection w' i = collection w i \<and>
         objects w' (bucket_name s, get_key_for_id s i) =
           objects w (bucket_name s, get_key_for_id s i)"
  using assms
proof (induction ms arbitrary: r w)
  case Nil
  then show ?case by simp
next
  case (Cons j ms)
  from Cons.prems(2) have ji: "i \<noteq> j" and rest: "i \<notin> set ms" by auto
  obtain x w1 where rb: "read_from_bucket s j w = (x, w1)" by (cases "read_from_bucket s j w")
  with Cons.prems(1) obtain v where x: "x = Inr v" by (cases x) auto
  with Cons.prems(1) rb have rm: "read_missing s ms (r(j \<mapsto> v)) w1 = (Inr r', w')" by simp
  have c: "collection w1 i = collection w i"
    using read_from_bucket_collection [OF ji, of s w] rb by simp
  have "(bucket_name s, get_key_for_id s i) \<noteq> (bucket_name s, get_key_for_id s j)"
    using ji by (simp add: get_key_for_id_inj)
  from read_from_bucket_objects [OF this, of w] rb
  have o: "objects w1 (bucket_name s, get_key_for_id s i) =
           objects w (bucket_name s, get_key_for_id s i)" by simp
  from Cons.IH [OF rm rest] c o ji show ?case by simp
qed

lemma read_missing_migrates:
  assumes "read_missing s ms r w = (Inr r', w')" and "count_list ms i = 1"
      and "collection w i = None"
      and "objects w (bucket_name s, get_key_for_id s i) = Some obj"
      and "fault w (GetObject (bucket_name s) (get_key_for_id s i)) = None"
      and "fault w (DeleteObject (bucket_name s) (get_key_for_id s i)) = None"
      and "fault w (InsertOne i) = None" and "fault w (UpdateOne i) = None"
      and dec: "decode_with s (ContentEncoding obj) (Body obj) = Inr v"
      and ch: "choose_encoding s v = Inr (d', enc)"
  shows "r' i = Some (Some v) \<and>
         collection w' i = Some \<lparr>data = d', content_encoding = Some enc,
                                 created_day = combine (date_of (utcnow w)) datetime_min_time\<rparr> \<and>
         objects w' (bucket_name s, get_key_for_id s i) = None"
  using assms(1-8)
proof (induction ms arbitrary: r w)
  case Nil
  then show ?case by simp
next
  case (Cons j ms)
  obtain x w1 where rb: "read_from_bucket s j w = (x, w1)" by (cases "read_from_bucket s j w")
  with Cons.prems(1) obtain y where x: "x = Inr y" by (cases x) auto
  with Cons.prems(1) rb have rm: "read_missing s ms (r(j \<mapsto> y)) w1 = (Inr r', w')" by simp
  show ?case
  proof (cases "j = i")
    case True
    with Cons.prems(2) have rest: "i \<notin> set ms"
      by (simp add: count_list_0_iff [symmetric])
    note ok = read_from_bucket_ok [OF Cons.prems(4) dec ch Cons.prems(5-8)]
    from ok(1) rb x True have y: "y = Some v" by simp
    from ok(2) rb True have c: "collection w1 i =
        Some \<lparr>data = d', content_encoding = Some enc,
              created_day = combine (date_of (utcnow w)) datetime_min_time\<rparr>" by simp
    from ok(3) rb True have o: "objects w1 (bucket_name s, get_key_for_id s i) = None" by simp
    from read_missing_frame [OF rm rest] y c o True show ?thesis by simp
  next
    case False
    with Cons.prems(2) have cnt: "count_list ms i = 1" by simp
    from False have ij: "i \<noteq> j" by simp
    have c: "collection w1 i = None"
      using read_from_bucket_collection [OF ij, of s w] rb Cons.prems(3) by simp
    have "(bucket_name s, get_key_for_id s i) \<noteq> (bucket_name s, get_key_for_id s j)"
      using ij by (simp add: get_key_for_id_inj)
    from read_from_bucket_objects [OF this, of w] rb Cons.prems(4)
    have o: "objects w1 (bucket_name s, get_key_for_id s i) = Some obj" by simp
    have f: "fault w1 = fault w" and u: "utcnow w1 = utcnow w"
      using read_from_bucket_fault [of s j w] read_from_bucket_utcnow [of s j w] rb by simp_all
    from Cons.IH [OF rm cnt c o] f u Cons.prems(5-8) show ?thesis by simp
  qed
qed

text \<open>
  C1, as the spec has it: the batched read returns an archived value and leaves both tiers as
  they were. The code reads the archival tier through the same \<open>__read_from_bucket\<close> as the
  single read: afterwards the primary tier holds the id and the object is gone.
\<close>

theorem get_bytes_multi_migrates_counterexample:
  "fst (get_bytes_multi store0 [''e2''] world0) = Inr [''e2'' \<mapsto> Some ''zzz''] \<and>
   collection world0 ''e2'' = None \<and>
   collection (snd (get_bytes_multi store0 [''e2''] world0)) ''e2'' =
     Some \<lparr>data = ''Tz'', content_encoding = Some ''zstd'',
           created_day = \<lparr>year = 2024, month = 5, day = 17, hour = 0, minute = 0, second = 0,
                          microsecond = 0\<rparr>\<rparr> \<and>
   objects world0 (''nodestore'', ''cold/e2'') =
     Some \<lparr>Body = ''Tz'', ContentEncoding = Some ''zstd'', LastModified = long_ago\<rparr> \<and>
   objects (snd (get_bytes_multi store0 [''e2''] world0)) (''nodestore'', ''cold/e2'') = None"
  by (simp add: get_bytes_multi_def find_in_def read_from_bucket_def
      get_object_def delete_object_def set_bytes_def insert_one_def choose_encoding_def
      decode_with_def strategies_get_def compression_strategies_def truthy_str_def
      except_NoSuchKey_def get_key_for_id_def observe_def store0_def world0_def run_codec_def
      Let_def date_of_def datetime_min_time_def noon_def)

text \<open>
  An id listed twice is read from the bucket twice; the second read finds the object deleted
  by the first and overwrites the value with \<open>None\<close>.
\<close>

lemma get_bytes_multi_duplicate_id:
  "fst (get_bytes_multi store0 [''e2'', ''e2''] world0) = Inr [''e2'' \<mapsto> None]"
  by (simp add: get_bytes_multi_def find_in_def read_from_bucket_def
      get_object_def delete_object_def set_bytes_def insert_one_def choose_encoding_def
      decode_with_def strategies_get_def compression_strategies_def truthy_str_def
      except_NoSuchKey_def get_key_for_id_def observe_def store0_def world0_def run_codec_def
      Let_def date_of_def datetime_min_time_def noon_def)

text \<open>
  C1, amended. For every list of ids passed to the batched read, an id that occurs once in
  the list, misses the primary tier and hits the archival tier is returned decoded and is
  migrated as by the single read: when the calls for that id do not fail and the batched read
  returns, the primary tier holds a record for the id, written under the current compression
  and stamped with the current day, and the archival tier no longer holds the object.
\<close>

theorem get_bytes_multi_migrates:
  assumes "read_from_s3 s" and "count_list ids i = 1" and "collection w i = None"
      and "objects w (bucket_name s, get_key_for_id s i) = Some obj"
      and "decode_with s (ContentEncoding obj) (Body obj) = Inr v"
      and "choose_encoding s v = Inr (d', enc)"
      and "fault w (GetObject (bucket_name s) (get_key_for_id s i)) = None"
      and "fault w (DeleteObject (bucket_name s) (get_key_for_id s i)) = None"
      and "fault w (InsertOne i) = None" and "fault w (UpdateOne i) = None"
      and "fst (get_bytes_multi s ids w) = Inr result"
  shows "result i = Some (Some v) \<and>
         collection (snd (get_bytes_multi s ids w)) i =
           Some \<lparr>data = d', content_encoding = Some enc,
                 created_day = combine (date_of (utcnow w)) datetime_min_time\<rparr> \<and>
         objects (snd (get_bytes_multi s ids w)) (bucket_name s, get_key_for_id s i) = None"
proof -
  from assms(11) obtain docs w1 r1 r2 w2 where
    f: "find_in ids w = (Inr docs, w1)" and d: "decode_docs s docs Map.empty = Inr r1"
    and m: "if read_from_s3 s
         then read_missing s (filter (\<lambda>i. r1 i = None) ids) r1 w1 = (Inr r2, w2)
         else r2 = r1 \<and> w2 = w1"
    and r: "result = fill_none ids r2" and w2: "snd (get_bytes_multi s ids w) = w2"
    by (rule get_bytes_multi_Inr)
  have "i \<notin> fst ` set docs"
    using find_in_ids [OF f] assms(3) by simp
  then have r1: "r1 i = None"
    using decode_docs_other [OF d, of i] by simp
  from m assms(1) have rm: "read_missing s (filter (\<lambda>i. r1 i = None) ids) r1 w1 = (Inr r2, w2)"
    by simp
  have cnt: "count_list (filter (\<lambda>i. r1 i = None) ids) i = 1"
    using count_list_filter_keep [of "\<lambda>i. r1 i = None" i ids] r1 assms(2) by simp
  note fw = find_in_world [OF f]
  have "r2 i = Some (Some v) \<and>
         collection w2 i = Some \<lparr>data = d', content_encoding = Some enc,
                                 created_day = combine (date_of (utcnow w1)) datetime_min_time\<rparr> \<and>
         objects w2 (bucket_name s, get_key_for_id s i) = None"
    by (rule read_missing_migrates [OF rm cnt _ _ _ _ _ _ assms(5,6)])
       (simp_all add: fw assms)
  then show ?thesis by (simp add: r w2 fw fill_none_at)
qed

theorem get_bytes_multi_migrates_witness:
  "read_from_s3 store0 \<and> count_list [''e1'', ''e3'', ''e2'', ''e3''] ''e2'' = 1 \<and>
   collection world_mixed ''e2'' = None \<and>
   objects world_mixed (bucket_name store0, get_key_for_id store0 ''e2'') =
     Some \<lparr>Body = ''Tz'', ContentEncoding = Some ''zstd'', LastModified = long_ago\<rparr> \<and>
   (\<exists>result. fst (get_bytes_multi store0 [''e1'', ''e3'', ''e2'', ''e3''] world_mixed) = Inr result \<and>
      result ''e2'' = Some (Some ''zzz'')) \<and>
   collection (snd (get_bytes_multi store0 [''e1'', ''e3'', ''e2'', ''e3''] world_mixed)) ''e2'' =
     Some \<lparr>data = ''Tz'', content_encoding = Some ''zstd'',
           created_day = \<lparr>year = 2024, month = 5, day = 17, hour = 0, minute = 0, second = 0,
                          microsecond = 0\<rparr>\<rparr> \<and>
   objects (snd (get_bytes_multi store0 [''e1'', ''e3'', ''e2'', ''e3''] world_mixed))
     (bucket_name store0, get_key_for_id store0 ''e2'') = None"
proof -
  let ?obj = "\<lparr>Body = ''Tz'', ContentEncoding = Some ''zstd'', LastModified = long_ago\<rparr>"
  let ?ids = "[''e1'', ''e3'', ''e2'', ''e3'']"
  have h1: "read_from_s3 store0" "count_list ?ids ''e2'' = 1"
    "collection world_mixed ''e2'' = None"
    by (simp_all add: store0_def world_mixed_def world0_def)
  have h2: "objects world_mixed (bucket_name store0, get_key_for_id store0 ''e2'') = Some ?obj"
    by (simp add: store0_def world_mixed_def world0_def get_key_for_id_def)
  have h3: "decode_with store0 (ContentEncoding ?obj) (Body ?obj) = Inr ''zzz''"
    by (simp add: store0_def decode_with_def strategies_get_def compression_strategies_def
        run_codec_def)
  have h4: "choose_encoding store0 ''zzz'' = Inr (''Tz'', ''zstd'')"
    by (simp add: store0_def choose_encoding_def truthy_str_def compression_strategies_def
        run_codec_def)
  have h5: "fault world_mixed c = None" for c
    by (simp add: world_mixed_def world0_def)
  obtain result where res: "fst (get_bytes_multi store0 ?ids world_mixed) = Inr result"
    using get_bytes_multi_total [OF healthy_mixed] by blast
  show ?thesis
    using h1 h2 res get_bytes_multi_migrates [OF h1 h2 h3 h4 h5 h5 h5 h5 res]
    by (simp add: world_mixed_def world0_def noon_def date_of_def datetime_min_time_def)
qed

end
